theory Spec2Isabelle
  imports Complex_Main "HOL-Library.AList"
begin

section \<open>Strings and file names\<close>

text \<open>
  A Python \<open>str\<close> is modelled as a \<open>string\<close>: one \<open>char\<close> stands for one code point,
  so the model covers names whose code points are below 256. Lengths and slices count
  characters, as Python does.
\<close>

text \<open>\<open>p.rfind(ch)\<close>: the index of the last occurrence, \<open>-1\<close> when there is none.\<close>

fun rfind_from :: "char \<Rightarrow> string \<Rightarrow> int \<Rightarrow> int \<Rightarrow> int" where
  "rfind_from ch [] i found = found"
| "rfind_from ch (x # xs) i found = rfind_from ch xs (i + 1) (if x = ch then i else found)"

definition rfind :: "char \<Rightarrow> string \<Rightarrow> int" where
  "rfind ch p = rfind_from ch p 0 (- 1)"

text \<open>
  The slices \<open>p[:k]\<close>, \<open>p[k:]\<close> and \<open>p[i:j]\<close> of Python, for any integers: a negative
  index counts from the end, and both ends are clamped to the string.
\<close>

definition py_index :: "string \<Rightarrow> int \<Rightarrow> nat" where
  "py_index p k = (if k < 0 then nat (int (length p) + k) else min (nat k) (length p))"

definition slice_to :: "int \<Rightarrow> string \<Rightarrow> string" where
  "slice_to k p = take (py_index p k) p"

definition slice_from :: "int \<Rightarrow> string \<Rightarrow> string" where
  "slice_from k p = drop (py_index p k) p"

definition slice :: "int \<Rightarrow> int \<Rightarrow> string \<Rightarrow> string" where
  "slice i j p = drop (py_index p i) (take (py_index p j) p)"

text \<open>
  \<open>os.path.splitext\<close> as \<open>posixpath\<close> defines it (separator \<open>/\<close>, extension separator
  \<open>.\<close>): the extension starts at the last dot of the last path component, unless that
  component has only dots before it.
\<close>

definition splitext :: "string \<Rightarrow> string \<times> string" where
  "splitext p =
     (let sepIndex = rfind (CHR ''/'') p;
          dotIndex = rfind (CHR ''.'') p
      in if dotIndex > sepIndex
            \<and> list_ex (\<lambda>c. c \<noteq> CHR ''.'') (slice (sepIndex + 1) dotIndex p)
         then (slice_to dotIndex p, slice_from dotIndex p)
         else (p, []))"

text \<open>The characters of the class \<open>[<>:"/\\|?*]\<close> of \<open>sanitize_filename\<close>.\<close>

definition invalid_chars :: "char list" where
  "invalid_chars =
     [CHR ''<'', CHR ''>'', CHR '':'', CHR 0x22, CHR ''/'', CHR 0x5C, CHR ''|'', CHR ''?'',
      CHR ''*'']"

text \<open>\<open>re.sub(r'[<>:"/\\|?*]', '_', filename)\<close>\<close>

definition sub_invalid :: "string \<Rightarrow> string" where
  "sub_invalid filename =
     map (\<lambda>c. if c \<in> set invalid_chars then CHR ''_'' else c) filename"

text \<open>\<open>s.strip(chars)\<close>\<close>

definition strip :: "char list \<Rightarrow> string \<Rightarrow> string" where
  "strip chars s =
     rev (dropWhile (\<lambda>c. c \<in> set chars) (rev (dropWhile (\<lambda>c. c \<in> set chars) s)))"

definition max_length :: nat where
  "max_length = 100"

definition sanitize_filename :: "string \<Rightarrow> string" where
  "sanitize_filename filename =
     (let sanitized = sub_invalid filename;
          sanitized = strip [CHR ''.'', CHR '' ''] sanitized;
          sanitized =
            (if length sanitized > max_length
             then (case splitext sanitized of
                     (name, ext) \<Rightarrow> slice_to (int max_length - int (length ext)) name @ ext)
             else sanitized)
      in if sanitized = [] then ''unnamed'' else sanitized)"

text \<open>\<open>f"{base_name}_{sanitized_sheet_name}.xlsx"\<close>, with the sheet name sanitized first.\<close>

definition output_filename :: "string \<Rightarrow> string \<Rightarrow> string" where
  "output_filename base_name sheet_name =
     base_name @ ''_'' @ sanitize_filename sheet_name @ ''.xlsx''"

section \<open>The workbook model\<close>

text \<open>
  The service reads and writes workbooks through the openpyxl object model. The model
  keeps what \<open>split_excel_by_sheets_simple\<close> reads and writes of it: the ordered sheets
  of a workbook, and per sheet its title, visibility, column and row dimensions, the
  dictionary of cells keyed by the 1-based coordinate (row, column), and the merged
  ranges. A dictionary is an association list in insertion order.
\<close>

type_synonym bytes = "nat list"

text \<open>An exception is represented by its message \<open>str(e)\<close>.\<close>

type_synonym exn = string

text \<open>
  The Python classes of a date value, and the values a cell can hold. The payload of a
  date is left abstract: the service only copies it.
\<close>

datatype date_kind = DateTime | Date | Time | TimeDelta

datatype cell_value = VNone | VNum real | VStr string | VBool bool | VDate date_kind nat

text \<open>
  A formula is held as its source text, a \<open>VStr\<close> that starts with \<open>=\<close>: the workbook is
  loaded with \<open>data_only=False\<close>.
\<close>

datatype font = DefaultFont | Font string
datatype fill = DefaultFill | Fill string
datatype border = DefaultBorder | Border string
datatype alignment = DefaultAlignment | Alignment string

text \<open>
  \<open>other_style\<close> stands for the style parts the service never copies (protection, named
  style, quote prefix, pivot button).
\<close>

record cell =
  cvalue :: cell_value
  font :: font
  fill :: fill
  border :: border
  alignment :: alignment
  number_format :: string
  other_style :: bool

definition blank_cell :: cell where
  "blank_cell =
     \<lparr>cvalue = VNone, font = DefaultFont, fill = DefaultFill, border = DefaultBorder,
      alignment = DefaultAlignment, number_format = ''General'', other_style = False\<rparr>"

text \<open>\<open>cell.has_style\<close>: some part of the cell's style is not the default one.\<close>

definition has_style :: "cell \<Rightarrow> bool" where
  "has_style c =
     (font c \<noteq> DefaultFont \<or> fill c \<noteq> DefaultFill \<or> border c \<noteq> DefaultBorder
      \<or> alignment c \<noteq> DefaultAlignment \<or> number_format c \<noteq> ''General'' \<or> other_style c)"

type_synonym coord = "nat \<times> nat"

text \<open>A merged range: its top-left and its bottom-right coordinate.\<close>

type_synonym cell_range = "coord \<times> coord"

datatype sheet_state = Visible | Hidden | VeryHidden

record worksheet =
  title :: string
  sheet_state :: sheet_state
  column_dimensions :: "(string \<times> real option) list"
  row_dimensions :: "(nat \<times> real option) list"
  cells :: "(coord \<times> cell) list"
  merged_cells :: "cell_range list"

record workbook =
  sheets :: "worksheet list"

text \<open>
  The library calls whose outcome the service does not decide are parameters: loading
  and saving a workbook, the five statements of the style block (each \<open>copy()\<close>
  together with its assignment), and the test whether a number format is a date format.
  \<open>Inl\<close> carries the exception raised. The other library calls are modelled below or
  taken as total.
\<close>

record openpyxl =
  load_workbook :: "bytes \<Rightarrow> exn + workbook"
  save :: "workbook \<Rightarrow> exn + bytes"
  is_date_format :: "string \<Rightarrow> bool"
  copy_font :: "font \<Rightarrow> exn + font"
  copy_fill :: "fill \<Rightarrow> exn + fill"
  copy_border :: "border \<Rightarrow> exn + border"
  copy_alignment :: "alignment \<Rightarrow> exn + alignment"
  assign_number_format :: "string \<Rightarrow> exn + string"

definition sheetnames :: "workbook \<Rightarrow> string list" where
  "sheetnames wb = map title (sheets wb)"

text \<open>
  \<open>wb[name]\<close>: the first sheet with that title, \<open>KeyError\<close> when there is none (the
  text of a \<open>KeyError\<close> is its message in single quotes).
\<close>

definition wb_getitem :: "workbook \<Rightarrow> string \<Rightarrow> exn + worksheet" where
  "wb_getitem wb name =
     (case find (\<lambda>ws. title ws = name) (sheets wb) of
        None \<Rightarrow> Inl ([CHR 0x27] @ ''Worksheet '' @ name @ '' does not exist.'' @ [CHR 0x27])
      | Some ws \<Rightarrow> Inr ws)"

text \<open>\<open>ws.cell(row, column)\<close>: the cell at the coordinate, a blank one when there is none.\<close>

definition ws_cell :: "worksheet \<Rightarrow> coord \<Rightarrow> cell" where
  "ws_cell ws rc = (case map_of (cells ws) rc of None \<Rightarrow> blank_cell | Some c \<Rightarrow> c)"

text \<open>\<open>ws.max_row\<close> and \<open>ws.max_column\<close>: the largest index in use, 1 for an empty sheet.\<close>

definition max_index :: "nat list \<Rightarrow> nat" where
  "max_index ks = (case ks of [] \<Rightarrow> 1 | k # ks' \<Rightarrow> fold max ks' k)"

definition max_row :: "worksheet \<Rightarrow> nat" where
  "max_row ws = max_index (map (\<lambda>kc. fst (fst kc)) (cells ws))"

definition max_column :: "worksheet \<Rightarrow> nat" where
  "max_column ws = max_index (map (\<lambda>kc. snd (fst kc)) (cells ws))"

text \<open>
  \<open>ws.iter_rows()\<close> of a loaded sheet: nothing for a sheet without cells, and otherwise
  every coordinate of the rectangle from (1, 1) to (\<open>max_row\<close>, \<open>max_column\<close>), row by
  row, each with its cell.
\<close>

definition iter_rows :: "worksheet \<Rightarrow> (coord \<times> cell) list list" where
  "iter_rows ws =
     (if cells ws = [] then []
      else map (\<lambda>r. map (\<lambda>c. ((r, c), ws_cell ws (r, c))) [1..<Suc (max_column ws)])
             [1..<Suc (max_row ws)])"

text \<open>The sheet made by \<open>Workbook()\<close>, \<open>remove(active)\<close> and \<open>create_sheet(title=...)\<close>.\<close>

definition create_sheet :: "string \<Rightarrow> worksheet" where
  "create_sheet t =
     \<lparr>title = t, sheet_state = Visible, column_dimensions = [], row_dimensions = [],
      cells = [], merged_cells = []\<rparr>"

text \<open>
  \<open>m.issubset(m')\<close>, the order \<open>m <= m'\<close> of cell ranges: \<open>m\<close> lies inside \<open>m'\<close>.
\<close>

definition issubset :: "cell_range \<Rightarrow> cell_range \<Rightarrow> bool" where
  "issubset m m' =
     (fst (fst m') \<le> fst (fst m) \<and> fst (fst m) \<le> fst (snd m) \<and> fst (snd m) \<le> fst (snd m')
      \<and> snd (fst m') \<le> snd (fst m) \<and> snd (fst m) \<le> snd (snd m) \<and> snd (snd m) \<le> snd (snd m'))"

text \<open>
  \<open>ws.merge_cells(str(merged_range))\<close>: the range joins the merged ranges of the sheet,
  unless it lies within a range that is merged already. The library also blanks the
  cells the range covers beside its top-left one; in a loaded sheet they are blank
  already.
\<close>

definition merge_cells :: "cell_range \<Rightarrow> worksheet \<Rightarrow> worksheet" where
  "merge_cells r ws =
     (if list_ex (issubset r) (merged_cells ws) then ws
      else ws\<lparr>merged_cells := merged_cells ws @ [r]\<rparr>)"

section \<open>Extracting one sheet\<close>

text \<open>The truth value Python gives a width or height: \<open>None\<close> and zero are false.\<close>

definition truthy :: "real option \<Rightarrow> bool" where
  "truthy w = (case w of None \<Rightarrow> False | Some x \<Rightarrow> x \<noteq> 0)"

definition copy_column_widths :: "worksheet \<Rightarrow> worksheet \<Rightarrow> worksheet" where
  "copy_column_widths source_ws target_ws =
     fold (\<lambda>(col_letter, width) t.
             if truthy width
             then t\<lparr>column_dimensions := AList.update col_letter width (column_dimensions t)\<rparr>
             else t)
       (column_dimensions source_ws) target_ws"

definition copy_row_heights :: "worksheet \<Rightarrow> worksheet \<Rightarrow> worksheet" where
  "copy_row_heights source_ws target_ws =
     fold (\<lambda>(row_num, height) t.
             if truthy height
             then t\<lparr>row_dimensions := AList.update row_num height (row_dimensions t)\<rparr>
             else t)
       (row_dimensions source_ws) target_ws"

text \<open>
  The style block of a cell: five statements under one \<open>try\<close>. The first exception ends
  the block; what was assigned before it stays. The handler only writes a debug line,
  which the configured log level drops.
\<close>

definition copy_style :: "openpyxl \<Rightarrow> cell \<Rightarrow> cell \<Rightarrow> cell" where
  "copy_style lib c target_cell =
     (case copy_font lib (font c) of Inl e \<Rightarrow> target_cell | Inr f \<Rightarrow>
      (let t1 = target_cell\<lparr>font := f\<rparr> in
       case copy_fill lib (fill c) of Inl e \<Rightarrow> t1 | Inr fl \<Rightarrow>
       (let t2 = t1\<lparr>fill := fl\<rparr> in
        case copy_border lib (border c) of Inl e \<Rightarrow> t2 | Inr b \<Rightarrow>
        (let t3 = t2\<lparr>border := b\<rparr> in
         case copy_alignment lib (alignment c) of Inl e \<Rightarrow> t3 | Inr a \<Rightarrow>
         (let t4 = t3\<lparr>alignment := a\<rparr> in
          case assign_number_format lib (number_format c) of Inl e \<Rightarrow> t4
          | Inr n \<Rightarrow> t4\<lparr>number_format := n\<rparr>)))))"

text \<open>
  \<open>target_cell.value = cell.value\<close> runs the value setter of the target cell. A string
  is cut to its first 32767 characters and then refused when it holds a control
  character that a worksheet cannot hold. A date value gives the cell the number format
  of its class, unless the format of the cell is a date format already. Every other
  value is stored as it is.
\<close>

definition illegal_characters :: "char list" where
  "illegal_characters =
     [CHR 0x00, CHR 0x01, CHR 0x02, CHR 0x03, CHR 0x04, CHR 0x05, CHR 0x06, CHR 0x07, CHR 0x08,
      CHR 0x0B, CHR 0x0C,
      CHR 0x0E, CHR 0x0F, CHR 0x10, CHR 0x11, CHR 0x12, CHR 0x13, CHR 0x14, CHR 0x15, CHR 0x16,
      CHR 0x17, CHR 0x18, CHR 0x19, CHR 0x1A, CHR 0x1B, CHR 0x1C, CHR 0x1D, CHR 0x1E, CHR 0x1F]"

text \<open>\<open>value[:32767]\<close>; a string of at most 32767 characters is its own slice.\<close>

definition cut_string :: "string \<Rightarrow> string" where
  "cut_string s = (if int (length s) \<le> 32767 then s else take 32767 s)"

definition check_string :: "string \<Rightarrow> exn + string" where
  "check_string s =
     (let v = cut_string s
      in if list_ex (\<lambda>ch. ch \<in> set illegal_characters) v
         then Inl (v @ '' cannot be used in worksheets.'')
         else Inr v)"

fun NUMBER_FORMATS :: "date_kind \<Rightarrow> string" where
  "NUMBER_FORMATS DateTime = ''yyyy-mm-dd h:mm:ss''"
| "NUMBER_FORMATS Date = ''yyyy-mm-dd''"
| "NUMBER_FORMATS Time = ''h:mm:ss''"
| "NUMBER_FORMATS TimeDelta = ''[hh]:mm:ss''"

definition bind_value :: "openpyxl \<Rightarrow> cell \<Rightarrow> cell_value \<Rightarrow> exn + cell" where
  "bind_value lib target_cell v =
     (case v of
        VNone \<Rightarrow> Inr (target_cell\<lparr>cvalue := VNone\<rparr>)
      | VNum x \<Rightarrow> Inr (target_cell\<lparr>cvalue := VNum x\<rparr>)
      | VStr s \<Rightarrow>
          (case check_string s of
             Inl e \<Rightarrow> Inl e
           | Inr s' \<Rightarrow> Inr (target_cell\<lparr>cvalue := VStr s'\<rparr>))
      | VBool b \<Rightarrow> Inr (target_cell\<lparr>cvalue := VBool b\<rparr>)
      | VDate k d \<Rightarrow>
          Inr ((if is_date_format lib (number_format target_cell) then target_cell
                else target_cell\<lparr>number_format := NUMBER_FORMATS k\<rparr>)\<lparr>cvalue := VDate k d\<rparr>))"

text \<open>The body of the loop over the cells of a row.\<close>

definition copy_cell :: "openpyxl \<Rightarrow> coord \<times> cell \<Rightarrow> worksheet \<Rightarrow> exn + worksheet" where
  "copy_cell lib rc_c target_ws =
     (let rc = fst rc_c; c = snd rc_c;
          target_cell = ws_cell target_ws rc
      in case bind_value lib target_cell (cvalue c) of
           Inl e \<Rightarrow> Inl e
         | Inr t0 \<Rightarrow>
             (let t1 = (if has_style c then copy_style lib c t0 else t0)
              in Inr (target_ws\<lparr>cells := AList.update rc t1 (cells target_ws)\<rparr>)))"

fun copy_row :: "openpyxl \<Rightarrow> (coord \<times> cell) list \<Rightarrow> worksheet \<Rightarrow> exn + worksheet" where
  "copy_row lib [] target_ws = Inr target_ws"
| "copy_row lib (c # cs) target_ws =
     (case copy_cell lib c target_ws of
        Inl e \<Rightarrow> Inl e
      | Inr t \<Rightarrow> copy_row lib cs t)"

fun copy_rows :: "openpyxl \<Rightarrow> (coord \<times> cell) list list \<Rightarrow> worksheet \<Rightarrow> exn + worksheet" where
  "copy_rows lib [] target_ws = Inr target_ws"
| "copy_rows lib (row # rows) target_ws =
     (case copy_row lib row target_ws of
        Inl e \<Rightarrow> Inl e
      | Inr t \<Rightarrow> copy_rows lib rows t)"

definition copy_merges :: "worksheet \<Rightarrow> worksheet \<Rightarrow> worksheet" where
  "copy_merges source_ws target_ws = fold merge_cells (merged_cells source_ws) target_ws"

text \<open>The target sheet as it stands when the new workbook is saved.\<close>

definition build_sheet :: "openpyxl \<Rightarrow> worksheet \<Rightarrow> string \<Rightarrow> exn + worksheet" where
  "build_sheet lib source_ws sheet_name =
     (let target_ws = create_sheet sheet_name;
          target_ws = copy_column_widths source_ws target_ws;
          target_ws = copy_row_heights source_ws target_ws
      in case copy_rows lib (iter_rows source_ws) target_ws of
           Inl e \<Rightarrow> Inl e
         | Inr t \<Rightarrow> Inr (copy_merges source_ws t))"

text \<open>The body of the \<open>try\<close> of one sheet, up to the bytes of the saved workbook.\<close>

definition extract_sheet :: "openpyxl \<Rightarrow> workbook \<Rightarrow> string \<Rightarrow> exn + bytes" where
  "extract_sheet lib source_wb sheet_name =
     (case wb_getitem source_wb sheet_name of
        Inl e \<Rightarrow> Inl e
      | Inr source_ws \<Rightarrow>
          (case build_sheet lib source_ws sheet_name of
             Inl e \<Rightarrow> Inl e
           | Inr target_ws \<Rightarrow> save lib \<lparr>sheets = [target_ws]\<rparr>))"

section \<open>Splitting a workbook\<close>

text \<open>
  The lines the function logs at level info or error, in the order of the constructors:
  \<open>Processing N visible sheets from F\<close>, \<open>Skipping N hidden sheets: ...\<close>,
  \<open>Processing sheet: S\<close>, \<open>Successfully processed sheet: S\<close>,
  \<open>Error processing sheet 'S': e\<close> and \<open>Error splitting Excel file: e\<close>.
\<close>

datatype log_event =
    Info_visible nat string
  | Info_hidden nat "string list"
  | Info_processing string
  | Info_processed string
  | Error_sheet string exn
  | Error_splitting exn

text \<open>The error the function returns beside the files, and its message.\<close>

datatype split_error =
    TooManySheets nat nat
  | NoSheetsProcessed
  | ProcessingError exn

function show_nat :: "nat \<Rightarrow> string" where
  "show_nat n =
     (if n < 10 then [char_of (48 + n)]
      else show_nat (n div 10) @ [char_of (48 + n mod 10)])"
  by pat_completeness auto
termination
  by (relation "measure id") auto

fun error_message :: "split_error \<Rightarrow> string" where
  "error_message (TooManySheets n m) =
     ''File contains too many sheets ('' @ show_nat n @ ''). Maximum allowed: '' @ show_nat m"
| "error_message NoSheetsProcessed = ''No sheets could be processed successfully''"
| "error_message (ProcessingError e) = ''Error processing Excel file: '' @ e"

text \<open>The loop that sorts the sheet names into visible and hidden ones.\<close>

fun partition_sheets ::
  "workbook \<Rightarrow> string list \<Rightarrow> string list \<Rightarrow> string list \<Rightarrow> exn + (string list \<times> string list)"
where
  "partition_sheets wb [] visible_sheets hidden_sheets = Inr (visible_sheets, hidden_sheets)"
| "partition_sheets wb (sheet_name # names) visible_sheets hidden_sheets =
     (case wb_getitem wb sheet_name of
        Inl e \<Rightarrow> Inl e
      | Inr sheet \<Rightarrow>
          if sheet_state sheet = Visible
          then partition_sheets wb names (visible_sheets @ [sheet_name]) hidden_sheets
          else partition_sheets wb names visible_sheets (hidden_sheets @ [sheet_name]))"

text \<open>
  The loop over the visible sheets. An exception of a sheet is logged and the loop goes
  on; a sheet that was saved is stored under its output name, replacing what the
  dictionary held under that name.
\<close>

fun process_sheets ::
  "openpyxl \<Rightarrow> workbook \<Rightarrow> string \<Rightarrow> string list \<Rightarrow> (string \<times> bytes) list \<times> log_event list
     \<Rightarrow> (string \<times> bytes) list \<times> log_event list"
where
  "process_sheets lib source_wb base_name [] st = st"
| "process_sheets lib source_wb base_name (sheet_name # names) st =
     (case extract_sheet lib source_wb sheet_name of
        Inr blob \<Rightarrow>
          process_sheets lib source_wb base_name names
            (AList.update (output_filename base_name sheet_name) blob (fst st),
             snd st @ [Info_processing sheet_name, Info_processed sheet_name])
      | Inl e \<Rightarrow>
          process_sheets lib source_wb base_name names
            (fst st, snd st @ [Info_processing sheet_name, Error_sheet sheet_name e]))"

text \<open>
  \<open>split_excel_by_sheets_simple\<close>, with the ceiling \<open>MAX_SHEETS\<close> as a parameter (the
  service reads it from the environment). The result is the pair the function returns
  and the lines it logs, in order. The line of the timing decorator, written after the
  function has returned, is left out.
\<close>

definition split_excel_by_sheets_simple ::
  "nat \<Rightarrow> openpyxl \<Rightarrow> bytes \<Rightarrow> string
     \<Rightarrow> ((string \<times> bytes) list \<times> split_error option) \<times> log_event list"
where
  "split_excel_by_sheets_simple MAX_SHEETS lib file_bytes original_filename =
     (let base_name = fst (splitext original_filename) in
      case load_workbook lib file_bytes of
        Inl e \<Rightarrow> (([], Some (ProcessingError e)), [Error_splitting e])
      | Inr source_wb \<Rightarrow>
          if length (sheetnames source_wb) > MAX_SHEETS
          then (([], Some (TooManySheets (length (sheetnames source_wb)) MAX_SHEETS)), [])
          else
            (case partition_sheets source_wb (sheetnames source_wb) [] [] of
               Inl e \<Rightarrow> (([], Some (ProcessingError e)), [Error_splitting e])
             | Inr (visible_sheets, hidden_sheets) \<Rightarrow>
                 (let log =
                        Info_visible (length visible_sheets) original_filename
                        # (if hidden_sheets \<noteq> []
                           then [Info_hidden (length hidden_sheets) hidden_sheets] else []);
                      st = process_sheets lib source_wb base_name visible_sheets ([], log)
                  in if fst st = []
                     then (([], Some NoSheetsProcessed), snd st)
                     else ((fst st, None), snd st))))"

definition default_max_sheets :: nat where
  "default_max_sheets = 100"

section \<open>Notions used to state the properties\<close>

text \<open>
  What the partition loop leaves in its two lists: a name goes to the visible list when
  the sheet found under it is visible (lemma \<open>partition_sheets_sheetnames\<close>).
\<close>

definition is_visible :: "workbook \<Rightarrow> string \<Rightarrow> bool" where
  "is_visible wb n = (case wb_getitem wb n of Inl e \<Rightarrow> False | Inr s \<Rightarrow> sheet_state s = Visible)"

definition visible_sheets :: "workbook \<Rightarrow> string list" where
  "visible_sheets wb = filter (is_visible wb) (sheetnames wb)"

definition hidden_sheets :: "workbook \<Rightarrow> string list" where
  "hidden_sheets wb = filter (\<lambda>n. \<not> is_visible wb n) (sheetnames wb)"

text \<open>The sheet's \<open>try\<close> body ran to its end, so the sheet reached the dictionary.\<close>

definition extracted :: "openpyxl \<Rightarrow> workbook \<Rightarrow> string \<Rightarrow> bool" where
  "extracted lib wb n = (case extract_sheet lib wb n of Inl e \<Rightarrow> False | Inr b \<Rightarrow> True)"

text \<open>One turn of the loop over the visible sheets, seen from the dictionary.\<close>

definition store_sheet ::
  "openpyxl \<Rightarrow> workbook \<Rightarrow> string \<Rightarrow> string \<Rightarrow> (string \<times> bytes) list \<Rightarrow> (string \<times> bytes) list"
where
  "store_sheet lib wb base_name n files =
     (case extract_sheet lib wb n of
        Inl e \<Rightarrow> files
      | Inr blob \<Rightarrow> AList.update (output_filename base_name n) blob files)"


text \<open>What binding stores for a value, and whether binding accepts the value.\<close>

definition stored_value :: "cell_value \<Rightarrow> cell_value" where
  "stored_value v = (case v of VStr s \<Rightarrow> VStr (cut_string s) | _ \<Rightarrow> v)"


text \<open>The coordinates that \<open>iter_rows\<close> visits.\<close>

definition visited :: "worksheet \<Rightarrow> coord set" where
  "visited ws = (if cells ws = [] then {} else {1..max_row ws} \<times> {1..max_column ws})"


text \<open>
  What the caller \<open>split_excel\<close> answers to the pair the function returns: status 500
  with the error, status 400 when there is no error and no file, the files otherwise.
\<close>

datatype reply = Reply_error nat string | Reply_files "(string \<times> bytes) list"

definition split_excel_reply :: "(string \<times> bytes) list \<times> split_error option \<Rightarrow> reply" where
  "split_excel_reply r =
     (case snd r of
        Some error \<Rightarrow> Reply_error 500 (error_message error)
      | None \<Rightarrow>
          if fst r = [] then Reply_error 400 ''No sheets found in Excel file''
          else Reply_files (fst r))"

section \<open>Sample inputs\<close>

text \<open>
  A stand-in for the library: every upload decodes to the given workbook, a saved
  workbook is encoded as the character codes of its sheet titles, and nothing raises.
  The variants below make one call raise.
\<close>

definition sample_save :: "workbook \<Rightarrow> exn + bytes" where
  "sample_save wb = Inr (concat (map (\<lambda>ws. map of_char (title ws)) (sheets wb)))"

definition sample_lib :: "workbook \<Rightarrow> openpyxl" where
  "sample_lib wb =
     \<lparr>load_workbook = (\<lambda>b. Inr wb), save = sample_save,
      is_date_format = (\<lambda>fmt. list_ex (\<lambda>ch. ch \<in> set ''dmhysDMHYS'') fmt),
      copy_font = Inr, copy_fill = Inr, copy_border = Inr, copy_alignment = Inr,
      assign_number_format = Inr\<rparr>"



definition save_failing_lib :: "string \<Rightarrow> workbook \<Rightarrow> openpyxl" where
  "save_failing_lib bad wb =
     (sample_lib wb)\<lparr>save := (\<lambda>t. if bad \<in> set (sheetnames t) then Inl ''cannot save''
                                  else sample_save t)\<rparr>"

definition plain_sheet :: "string \<Rightarrow> sheet_state \<Rightarrow> worksheet" where
  "plain_sheet t st =
     \<lparr>title = t, sheet_state = st, column_dimensions = [], row_dimensions = [],
      cells = [((1, 1), blank_cell\<lparr>cvalue := VStr t\<rparr>)], merged_cells = []\<rparr>"

definition formula_cell :: cell where
  "formula_cell =
     blank_cell\<lparr>cvalue := VStr ''=A1+B1'', font := Font ''bold'', fill := Fill ''yellow'',
                border := Border ''thin'', alignment := Alignment ''right'',
                number_format := ''0.00''\<rparr>"

text \<open>A sheet with a formula in C1 and the merged range B2:D4, whose cells are empty but B2.\<close>

definition summary_sheet :: worksheet where
  "summary_sheet =
     \<lparr>title = ''Summary'', sheet_state = Visible,
      column_dimensions = [(''A'', Some 12.5), (''B'', None)],
      row_dimensions = [(1, Some 30)],
      cells =
        [((1, 1), blank_cell\<lparr>cvalue := VNum 2\<rparr>), ((1, 2), blank_cell\<lparr>cvalue := VNum 3\<rparr>),
         ((1, 3), formula_cell), ((2, 2), blank_cell\<lparr>cvalue := VStr ''Total''\<rparr>)],
      merged_cells = [((2, 2), (4, 4))]\<rparr>"

definition report_wb :: workbook where
  "report_wb = \<lparr>sheets = [summary_sheet, plain_sheet ''RawData'' Hidden]\<rparr>"

definition hidden_wb :: workbook where
  "hidden_wb = \<lparr>sheets = [plain_sheet ''RawData'' Hidden, plain_sheet ''Archive'' VeryHidden]\<rparr>"

text \<open>Two visible sheets whose names differ only by a trailing dot.\<close>

definition quarters_wb :: workbook where
  "quarters_wb =
     \<lparr>sheets = [plain_sheet ''Q1'' Visible, plain_sheet ''Q1.'' Visible,
                plain_sheet ''Old'' Hidden]\<rparr>"

definition year_wb :: workbook where
  "year_wb =
     \<lparr>sheets = [plain_sheet ''Notes'' Visible, plain_sheet ''Q1'' Visible,
                plain_sheet ''Q1.'' Visible]\<rparr>"

definition distinct_wb :: workbook where
  "distinct_wb =
     \<lparr>sheets = [plain_sheet ''Q1'' Visible, plain_sheet ''Q2'' Visible,
                plain_sheet ''Old'' Hidden]\<rparr>"

text \<open>One visible sheet and a hundred hidden ones: one sheet above the default ceiling.\<close>

definition crowded_wb :: workbook where
  "crowded_wb =
     \<lparr>sheets = summary_sheet # map (\<lambda>i. plain_sheet (''H'' @ show_nat i) Hidden) [0..<100]\<rparr>"



text \<open>A formula of 32768 characters, one more than a cell takes.\<close>

definition long_formula :: string where
  "long_formula = CHR ''='' # replicate 32767 (CHR ''1'')"

definition long_sheet :: worksheet where
  "long_sheet =
     (plain_sheet ''Long'' Visible)\<lparr>cells := [((1, 1), blank_cell\<lparr>cvalue := VStr long_formula\<rparr>)]\<rparr>"

definition long_wb :: workbook where
  "long_wb = \<lparr>sheets = [long_sheet]\<rparr>"




section \<open>The partition loop and the loop over the visible sheets\<close>

lemma wb_getitem_member:
  "n \<in> set (sheetnames wb) \<Longrightarrow> \<exists>s. wb_getitem wb n = Inr s \<and> title s = n \<and> s \<in> set (sheets wb)"
  unfolding wb_getitem_def sheetnames_def
  by (induction "sheets wb" arbitrary: wb) (auto split: option.splits simp: find_None_iff dest: find_Some_iff[THEN iffD1])

lemma partition_sheets_closed:
  "set ns \<subseteq> set (sheetnames wb) \<Longrightarrow>
   partition_sheets wb ns vis hid =
     Inr (vis @ filter (is_visible wb) ns, hid @ filter (\<lambda>n. \<not> is_visible wb n) ns)"
proof (induction ns arbitrary: vis hid)
  case Nil
  then show ?case by simp
next
  case (Cons n ns)
  then obtain s where s: "wb_getitem wb n = Inr s"
    using wb_getitem_member[of n wb] by auto
  show ?case using Cons s by (simp add: is_visible_def)
qed

lemma partition_sheets_sheetnames:
  "partition_sheets wb (sheetnames wb) [] [] = Inr (visible_sheets wb, hidden_sheets wb)"
  by (simp add: partition_sheets_closed visible_sheets_def hidden_sheets_def)

lemma process_sheets_files:
  "fst (process_sheets lib wb base ns st) = fold (store_sheet lib wb base) ns (fst st)"
  by (induction ns arbitrary: st) (auto simp: store_sheet_def split: sum.splits)

lemma process_sheets_log:
  "snd (process_sheets lib wb base ns st) =
     snd st @ concat (map (\<lambda>n. case extract_sheet lib wb n of
                                  Inl e \<Rightarrow> [Info_processing n, Error_sheet n e]
                                | Inr b \<Rightarrow> [Info_processing n, Info_processed n]) ns)"
  by (induction ns arbitrary: st) (auto split: sum.splits)

lemma split_loaded:
  assumes "load_workbook lib file_bytes = Inr wb" "length (sheetnames wb) \<le> MAX_SHEETS"
  shows "fst (split_excel_by_sheets_simple MAX_SHEETS lib file_bytes original_filename) =
     (let files = fold (store_sheet lib wb (fst (splitext original_filename))) (visible_sheets wb) []
      in if files = [] then ([], Some NoSheetsProcessed) else (files, None))"
  using assms
  by (simp add: split_excel_by_sheets_simple_def partition_sheets_sheetnames Let_def process_sheets_files)

lemma split_loaded_log:
  assumes "load_workbook lib file_bytes = Inr wb" "length (sheetnames wb) \<le> MAX_SHEETS"
  shows "snd (split_excel_by_sheets_simple MAX_SHEETS lib file_bytes original_filename) =
     Info_visible (length (visible_sheets wb)) original_filename
     # (if hidden_sheets wb \<noteq> [] then [Info_hidden (length (hidden_sheets wb)) (hidden_sheets wb)]
        else [])
     @ concat (map (\<lambda>n. case extract_sheet lib wb n of
                           Inl e \<Rightarrow> [Info_processing n, Error_sheet n e]
                         | Inr b \<Rightarrow> [Info_processing n, Info_processed n]) (visible_sheets wb))"
  using assms
  by (simp add: split_excel_by_sheets_simple_def partition_sheets_sheetnames Let_def
      process_sheets_log)

lemma split_loaded_files:
  assumes "load_workbook lib file_bytes = Inr wb" "length (sheetnames wb) \<le> MAX_SHEETS"
  shows "fst (fst (split_excel_by_sheets_simple MAX_SHEETS lib file_bytes original_filename)) =
     fold (store_sheet lib wb (fst (splitext original_filename))) (visible_sheets wb) []"
  using split_loaded[OF assms, of original_filename] by (simp add: Let_def)

lemma split_loaded_error:
  assumes "load_workbook lib file_bytes = Inr wb" "length (sheetnames wb) \<le> MAX_SHEETS"
  shows "snd (fst (split_excel_by_sheets_simple MAX_SHEETS lib file_bytes original_filename)) =
     (if fold (store_sheet lib wb (fst (splitext original_filename))) (visible_sheets wb) [] = []
      then Some NoSheetsProcessed else None)"
  using split_loaded[OF assms, of original_filename] by (simp add: Let_def)

lemma output_filename_eq_iff:
  "output_filename base n = output_filename base m \<longleftrightarrow> sanitize_filename n = sanitize_filename m"
  by (simp add: output_filename_def)

lemma visible_hidden_disjoint: "set (visible_sheets wb) \<inter> set (hidden_sheets wb) = {}"
  by (auto simp: visible_sheets_def hidden_sheets_def)

lemma visible_in_sheetnames: "n \<in> set (visible_sheets wb) \<Longrightarrow> n \<in> set (sheetnames wb)"
  by (simp add: visible_sheets_def)

section \<open>The result dictionary\<close>

lemma extracted_iff: "extracted lib wb n \<longleftrightarrow> (\<exists>b. extract_sheet lib wb n = Inr b)"
  by (simp add: extracted_def split: sum.splits)

lemma set_update_subset: "set (AList.update k v al) \<subseteq> insert (k, v) (set al)"
  by (induction al) auto

lemma stored_keys:
  "fst ` set (fold (store_sheet lib wb base) ns acc) =
     fst ` set acc \<union> output_filename base ` {n \<in> set ns. extracted lib wb n}"
proof (induction ns arbitrary: acc)
  case Nil
  then show ?case by simp
next
  case (Cons n ns)
  show ?case
  proof (cases "extract_sheet lib wb n")
    case (Inl e)
    then have "\<not> extracted lib wb n" by (simp add: extracted_def)
    then show ?thesis using Cons[of acc] Inl by (auto simp: store_sheet_def)
  next
    case (Inr b)
    then have "extracted lib wb n" by (simp add: extracted_def)
    then show ?thesis
      using Cons[of "AList.update (output_filename base n) b acc"] Inr
      by (auto simp: store_sheet_def AList.dom_update)
  qed
qed

lemma stored_distinct:
  "distinct (map fst acc) \<Longrightarrow> distinct (map fst (fold (store_sheet lib wb base) ns acc))"
  by (induction ns arbitrary: acc) (auto simp: store_sheet_def AList.distinct_update split: sum.splits)

lemma stored_origin:
  "(k, b) \<in> set (fold (store_sheet lib wb base) ns acc) \<Longrightarrow>
     (k, b) \<in> set acc \<or> (\<exists>n \<in> set ns. extract_sheet lib wb n = Inr b \<and> k = output_filename base n)"
proof (induction ns arbitrary: acc)
  case Nil
  then show ?case by simp
next
  case (Cons n ns)
  from Cons.prems have
    "(k, b) \<in> set (store_sheet lib wb base n acc) \<or>
     (\<exists>m \<in> set ns. extract_sheet lib wb m = Inr b \<and> k = output_filename base m)"
    using Cons.IH[of "store_sheet lib wb base n acc"] by simp
  then show ?case
    using set_update_subset[of "output_filename base n" _ acc]
    by (auto simp: store_sheet_def split: sum.splits)
qed

lemma stored_untouched:
  "\<forall>u \<in> set ns. extracted lib wb u \<longrightarrow> output_filename base u \<noteq> k \<Longrightarrow>
   map_of (fold (store_sheet lib wb base) ns acc) k = map_of acc k"
  by (induction ns arbitrary: acc)
     (auto simp: store_sheet_def extracted_def AList.update_conv' split: sum.splits)

lemma stored_last:
  assumes "ns = xs @ n # ys" "extract_sheet lib wb n = Inr b"
    and "\<forall>u \<in> set ys. extracted lib wb u \<longrightarrow> output_filename base u \<noteq> output_filename base n"
  shows "map_of (fold (store_sheet lib wb base) ns acc) (output_filename base n) = Some b"
  using assms by (simp add: stored_untouched store_sheet_def AList.update_conv')

lemma stored_length:
  "distinct (map fst acc) \<Longrightarrow>
   length (fold (store_sheet lib wb base) ns acc) =
     card (fst ` set acc \<union> output_filename base ` {n \<in> set ns. extracted lib wb n})"
proof -
  assume d: "distinct (map fst acc)"
  let ?F = "fold (store_sheet lib wb base) ns acc"
  have "length ?F = length (map fst ?F)" by simp
  also have "\<dots> = card (set (map fst ?F))"
    using stored_distinct[OF d] by (simp only: distinct_card)
  also have "set (map fst ?F) = fst ` set ?F" by simp
  finally show ?thesis by (simp only: stored_keys)
qed

lemma stored_failed_skip:
  "extract_sheet lib wb s = Inl e \<Longrightarrow>
   fold (store_sheet lib wb base) (xs @ s # ys) acc = fold (store_sheet lib wb base) (xs @ ys) acc"
  by (simp add: store_sheet_def)

lemma one_entry:
  "distinct (map fst al) \<Longrightarrow> k \<in> fst ` set al \<Longrightarrow> length (filter (\<lambda>kv. fst kv = k) al) = 1"
proof (induction al)
  case Nil
  then show ?case by simp
next
  case (Cons a al)
  show ?case
  proof (cases "fst a = k")
    case True
    from Cons.prems(1) have "fst a \<notin> fst ` set al" by simp
    with True have "\<forall>kv \<in> set al. fst kv \<noteq> k" by (metis imageI)
    then have "filter (\<lambda>kv. fst kv = k) al = []"
      by (simp add: filter_empty_conv)
    with True show ?thesis by simp
  next
    case False
    with Cons show ?thesis by auto
  qed
qed

section \<open>Copying the cells of a sheet\<close>

lemma cut_string_take: "cut_string s = take 32767 s"
  by (simp add: cut_string_def)

lemma copy_style_cvalue: "cvalue (copy_style lib c t) = cvalue t"
  by (simp add: copy_style_def Let_def split: sum.splits)

lemma bind_value_Inr:
  assumes "bind_value lib t v = Inr t0"
  shows "cvalue t0 = stored_value v"
    and "font t0 = font t" and "fill t0 = fill t" and "border t0 = border t"
    and "alignment t0 = alignment t" and "other_style t0 = other_style t"
    and "number_format t0 =
           (case v of
              VDate k d \<Rightarrow> if is_date_format lib (number_format t) then number_format t
                             else NUMBER_FORMATS k
            | _ \<Rightarrow> number_format t)"
  using assms
  by (cases v; auto simp: bind_value_def stored_value_def check_string_def Let_def
        split: sum.splits if_splits)+


lemma copy_cell_Inr:
  assumes "copy_cell lib (rc, c) t = Inr t'"
  shows "\<exists>t0. bind_value lib (ws_cell t rc) (cvalue c) = Inr t0
            \<and> cells t' = AList.update rc (if has_style c then copy_style lib c t0 else t0) (cells t)"
    and "title t' = title t" and "merged_cells t' = merged_cells t"
    and "column_dimensions t' = column_dimensions t" and "row_dimensions t' = row_dimensions t"
    and "sheet_state t' = sheet_state t"
  using assms
  by (auto simp: copy_cell_def Let_def split: sum.splits if_splits)


lemma copy_row_frame:
  "copy_row lib cs t = Inr t' \<Longrightarrow>
   title t' = title t \<and> merged_cells t' = merged_cells t \<and> sheet_state t' = sheet_state t"
proof (induction cs arbitrary: t)
  case Nil
  then show ?case by simp
next
  case (Cons a cs)
  obtain rc c where a: "a = (rc, c)" by (cases a)
  from Cons.prems obtain t1 where t1: "copy_cell lib (rc, c) t = Inr t1" "copy_row lib cs t1 = Inr t'"
    by (auto simp: a split: sum.splits)
  show ?case using Cons.IH[OF t1(2)] copy_cell_Inr(2,3,6)[OF t1(1)] by simp
qed

lemma copy_row_other:
  "copy_row lib cs t = Inr t' \<Longrightarrow> rc \<notin> fst ` set cs \<Longrightarrow> map_of (cells t') rc = map_of (cells t) rc"
proof (induction cs arbitrary: t)
  case Nil
  then show ?case by simp
next
  case (Cons a cs)
  obtain k c where a: "a = (k, c)" by (cases a)
  from Cons.prems(1) obtain t1 where t1: "copy_cell lib (k, c) t = Inr t1" "copy_row lib cs t1 = Inr t'"
    by (auto simp: a split: sum.splits)
  from Cons.prems(2) have ne: "rc \<noteq> k" and notin: "rc \<notin> fst ` set cs" by (auto simp: a)
  from copy_cell_Inr(1)[OF t1(1)] ne have "map_of (cells t1) rc = map_of (cells t) rc"
    by (auto simp: AList.update_conv')
  with Cons.IH[OF t1(2) notin] show ?case by simp
qed

lemma copy_row_exact:
  "copy_row lib cs t = Inr t' \<Longrightarrow> distinct (map fst cs) \<Longrightarrow>
   \<forall>k \<in> fst ` set cs. map_of (cells t) k = None \<Longrightarrow> (rc, c) \<in> set cs \<Longrightarrow>
   \<exists>t0. bind_value lib blank_cell (cvalue c) = Inr t0
        \<and> map_of (cells t') rc = Some (if has_style c then copy_style lib c t0 else t0)"
proof (induction cs arbitrary: t)
  case Nil
  then show ?case by simp
next
  case (Cons a cs)
  obtain k d where a: "a = (k, d)" by (cases a)
  from Cons.prems(1) obtain t1 where t1: "copy_cell lib (k, d) t = Inr t1" "copy_row lib cs t1 = Inr t'"
    by (auto simp: a split: sum.splits)
  from Cons.prems(2) have dist: "distinct (map fst cs)" and knew: "k \<notin> fst ` set cs"
    by (auto simp: a)
  from Cons.prems(3) have blank: "ws_cell t k = blank_cell"
    by (simp add: a ws_cell_def)
  from copy_cell_Inr(1)[OF t1(1)] blank obtain t0 where
    t0: "bind_value lib blank_cell (cvalue d) = Inr t0"
    and upd: "cells t1 = AList.update k (if has_style d then copy_style lib d t0 else t0) (cells t)"
    by auto
  show ?case
  proof (cases "(rc, c) \<in> set cs")
    case True
    have "\<forall>k' \<in> fst ` set cs. map_of (cells t1) k' = None"
    proof
      fix k' assume k': "k' \<in> fst ` set cs"
      with knew have "k' \<noteq> k" by auto
      moreover from k' Cons.prems(3) have "map_of (cells t) k' = None" by (auto simp: a)
      ultimately show "map_of (cells t1) k' = None" by (simp add: upd AList.update_conv')
    qed
    from Cons.IH[OF t1(2) dist this True] show ?thesis .
  next
    case False
    with Cons.prems(4) have eq: "rc = k" "c = d" by (auto simp: a)
    have "map_of (cells t1) k = Some (if has_style d then copy_style lib d t0 else t0)"
      by (simp add: upd AList.update_conv')
    with copy_row_other[OF t1(2) knew] t0 eq show ?thesis by auto
  qed
qed


lemma copy_row_append:
  "copy_row lib (xs @ ys) t =
     (case copy_row lib xs t of Inl e \<Rightarrow> Inl e | Inr t1 \<Rightarrow> copy_row lib ys t1)"
  by (induction xs arbitrary: t) (auto split: sum.splits)

lemma copy_rows_concat: "copy_rows lib rows t = copy_row lib (concat rows) t"
  by (induction rows arbitrary: t) (auto simp: copy_row_append split: sum.splits)

lemma iter_rows_keys:
  "map fst (concat (iter_rows ws)) =
     (if cells ws = [] then []
      else List.product [1..<Suc (max_row ws)] [1..<Suc (max_column ws)])"
  by (simp add: iter_rows_def product_concat_map map_concat comp_def)

lemma iter_rows_distinct: "distinct (map fst (concat (iter_rows ws)))"
  by (simp add: iter_rows_keys distinct_product)

lemma iter_rows_key_set: "fst ` set (concat (iter_rows ws)) = visited ws"
proof -
  have "fst ` set (concat (iter_rows ws)) = set (map fst (concat (iter_rows ws)))" by simp
  also have "\<dots> = visited ws"
  proof (cases "cells ws = []")
    case True
    then show ?thesis by (simp add: iter_rows_keys visited_def)
  next
    case False
    then show ?thesis
      by (simp only: iter_rows_keys visited_def if_False set_product set_upt
          atLeastLessThanSuc_atLeastAtMost)
  qed
  finally show ?thesis .
qed

lemma iter_rows_cell: "(rc, x) \<in> set (concat (iter_rows ws)) \<Longrightarrow> x = ws_cell ws rc"
  by (auto simp: iter_rows_def split: if_splits)

lemma iter_rows_member:
  "rc \<in> visited ws \<Longrightarrow> (rc, ws_cell ws rc) \<in> set (concat (iter_rows ws))"
proof -
  assume "rc \<in> visited ws"
  then have "rc \<in> fst ` set (concat (iter_rows ws))" by (simp only: iter_rows_key_set)
  then obtain x where "(rc, x) \<in> set (concat (iter_rows ws))" by force
  with iter_rows_cell[OF this] show ?thesis by simp
qed

lemma max_index_ge: "x \<in> set ks \<Longrightarrow> x \<le> max_index ks"
proof (cases ks)
  case Nil
  assume "x \<in> set ks"
  with Nil show ?thesis by simp
next
  case (Cons k ks')
  assume x: "x \<in> set ks"
  have "max_index ks = Max (set (k # ks'))"
    by (simp only: max_index_def Cons list.case Max.set_eq_fold)
  with x Cons show ?thesis by simp
qed

lemma stored_cell_visited:
  assumes "map_of (cells ws) (r, c) = Some x" "1 \<le> r" "1 \<le> c"
  shows "(r, c) \<in> visited ws"
proof -
  from assms(1) have mem: "((r, c), x) \<in> set (cells ws)" by (rule map_of_SomeD)
  then have ne: "cells ws \<noteq> []" by auto
  from mem have "r \<le> max_row ws" "c \<le> max_column ws"
    unfolding max_row_def max_column_def by (force intro!: max_index_ge)+
  with assms(2,3) ne show ?thesis by (simp add: visited_def)
qed

lemma copy_column_widths_frame:
  "cells (copy_column_widths s t) = cells t \<and> title (copy_column_widths s t) = title t
   \<and> merged_cells (copy_column_widths s t) = merged_cells t"
proof -
  have "cells (fold f xs t) = cells t \<and> title (fold f xs t) = title t
        \<and> merged_cells (fold f xs t) = merged_cells t"
    if "f = (\<lambda>(col_letter, width) t.
             if truthy width
             then t\<lparr>column_dimensions := AList.update col_letter width (column_dimensions t)\<rparr>
             else t)" for f xs
    using that by (induction xs arbitrary: t) (auto split: prod.splits)
  then show ?thesis unfolding copy_column_widths_def by blast
qed

lemma copy_row_heights_frame:
  "cells (copy_row_heights s t) = cells t \<and> title (copy_row_heights s t) = title t
   \<and> merged_cells (copy_row_heights s t) = merged_cells t"
proof -
  have "cells (fold f xs t) = cells t \<and> title (fold f xs t) = title t
        \<and> merged_cells (fold f xs t) = merged_cells t"
    if "f = (\<lambda>(row_num, height) t.
             if truthy height
             then t\<lparr>row_dimensions := AList.update row_num height (row_dimensions t)\<rparr>
             else t)" for f xs
    using that by (induction xs arbitrary: t) (auto split: prod.splits)
  then show ?thesis unfolding copy_row_heights_def by blast
qed

lemma fold_merge_cells_frame:
  "cells (fold merge_cells rs t) = cells t \<and> title (fold merge_cells rs t) = title t"
  by (induction rs arbitrary: t) (auto simp: merge_cells_def)








lemma build_sheet_Inr:
  assumes "build_sheet lib ws n = Inr tws"
  shows "title tws = n"
    and "\<exists>t. merged_cells t = []
             \<and> merged_cells tws = merged_cells (fold merge_cells (merged_cells ws) t)"
    and "rc \<in> visited ws \<Longrightarrow>
         \<exists>t0. bind_value lib blank_cell (cvalue (ws_cell ws rc)) = Inr t0
              \<and> map_of (cells tws) rc
                  = Some (if has_style (ws_cell ws rc) then copy_style lib (ws_cell ws rc) t0 else t0)"
    and "rc \<notin> visited ws \<Longrightarrow> map_of (cells tws) rc = None"
proof -
  let ?t0 = "copy_row_heights ws (copy_column_widths ws (create_sheet n))"
  from assms obtain t where t: "copy_row lib (concat (iter_rows ws)) ?t0 = Inr t"
    and tws: "tws = copy_merges ws t"
    by (auto simp: build_sheet_def Let_def copy_rows_concat split: sum.splits)
  have t0: "cells ?t0 = []" "title ?t0 = n" "merged_cells ?t0 = []"
    by (simp_all add: copy_row_heights_frame copy_column_widths_frame create_sheet_def)
  have fr: "title t = n" "merged_cells t = []"
    using copy_row_frame[OF t] t0 by simp_all
  show "title tws = n" by (simp add: tws copy_merges_def fold_merge_cells_frame fr)
  show "\<exists>t. merged_cells t = []
             \<and> merged_cells tws = merged_cells (fold merge_cells (merged_cells ws) t)"
    using fr(2) by (auto simp: tws copy_merges_def)
  have cells: "cells tws = cells t" by (simp add: tws copy_merges_def fold_merge_cells_frame)
  have empty: "\<forall>k \<in> fst ` set (concat (iter_rows ws)). map_of (cells ?t0) k = None"
    by (simp add: t0)
  {
    assume inbox: "rc \<in> visited ws"
    show "\<exists>t0. bind_value lib blank_cell (cvalue (ws_cell ws rc)) = Inr t0
              \<and> map_of (cells tws) rc
                  = Some (if has_style (ws_cell ws rc) then copy_style lib (ws_cell ws rc) t0 else t0)"
      using copy_row_exact[OF t iter_rows_distinct empty iter_rows_member[OF inbox]] cells
      by simp
  }
  {
    assume "rc \<notin> visited ws"
    then have "rc \<notin> fst ` set (concat (iter_rows ws))" unfolding iter_rows_key_set .
    from copy_row_other[OF t this] show "map_of (cells tws) rc = None" by (simp add: cells t0)
  }
qed




section \<open>What the loop logs, and a counting fact\<close>

lemma processing_logged:
  "t \<in> set ns \<Longrightarrow>
   Info_processing t \<in> set (concat (map (\<lambda>n. case extract_sheet lib wb n of
                           Inl e \<Rightarrow> [Info_processing n, Error_sheet n e]
                         | Inr b \<Rightarrow> [Info_processing n, Info_processed n]) ns))"
  by (induction ns) (auto split: sum.splits)

lemma processing_logged_only:
  "Info_processing t \<in> set (concat (map (\<lambda>n. case extract_sheet lib wb n of
                           Inl e \<Rightarrow> [Info_processing n, Error_sheet n e]
                         | Inr b \<Rightarrow> [Info_processing n, Info_processed n]) ns))
   \<Longrightarrow> t \<in> set ns"
proof (induction ns)
  case Nil
  then show ?case by simp
next
  case (Cons n ns)
  show ?case
  proof (cases "extract_sheet lib wb n")
    case (Inl e)
    with Cons show ?thesis by auto
  next
    case (Inr b)
    with Cons show ?thesis by auto
  qed
qed

lemma card_image_less:
  assumes "finite S" "a \<in> S" "b \<in> S" "a \<noteq> b" "f a = f b"
  shows "card (f ` S) < card S"
proof -
  from assms(2-5) have "\<not> inj_on f S" by (auto simp: inj_on_def)
  with assms(1) have "card (f ` S) \<noteq> card S" using eq_card_imp_inj_on by blast
  moreover have "card (f ` S) \<le> card S" by (rule card_image_le[OF assms(1)])
  ultimately show ?thesis by simp
qed

section \<open>A formula longer than a cell takes\<close>

text \<open>The sample sheet with a formula of 32768 characters, as extraction builds it.\<close>

lemma long_formula_cut: "cut_string long_formula = CHR ''='' # replicate 32766 (CHR ''1'')"
  by (simp add: cut_string_def long_formula_def)

lemma long_formula_checked:
  "check_string long_formula = Inr (CHR ''='' # replicate 32766 (CHR ''1''))"
  by (simp add: check_string_def long_formula_cut illegal_characters_def list_ex_iff)

lemma long_sheet_built:
  "build_sheet lib long_sheet ''Long''
     = Inr ((create_sheet ''Long'')
             \<lparr>cells := [((1, 1), blank_cell\<lparr>cvalue := VStr (CHR ''='' # replicate 32766 (CHR ''1''))\<rparr>)]\<rparr>)"
  by (simp add: build_sheet_def long_sheet_def plain_sheet_def copy_column_widths_def
      copy_row_heights_def iter_rows_def max_row_def max_column_def max_index_def ws_cell_def
      copy_cell_def bind_value_def long_formula_checked has_style_def blank_cell_def
      copy_merges_def create_sheet_def)

section \<open>The sheet-count ceiling\<close>

text \<open>
  Claim C5. A workbook whose sheet count equals the ceiling is not rejected for its sheet
  count. A workbook with more sheets than the ceiling makes the whole call return the
  too-many-sheets error with an empty dictionary; nothing has been logged by then, so
  neither the partition loop has finished nor has any sheet been started.
\<close>

theorem sheet_count_ceiling:
  assumes "load_workbook lib file_bytes = Inr source_wb"
  shows "(length (sheetnames source_wb) = MAX_SHEETS \<longrightarrow>
            (\<forall>n m. snd (fst (split_excel_by_sheets_simple MAX_SHEETS lib file_bytes original_filename))
                     \<noteq> Some (TooManySheets n m)))
       \<and> (length (sheetnames source_wb) > MAX_SHEETS \<longrightarrow>
            split_excel_by_sheets_simple MAX_SHEETS lib file_bytes original_filename =
              (([], Some (TooManySheets (length (sheetnames source_wb)) MAX_SHEETS)), []))"
proof (intro conjI impI)
  assume "length (sheetnames source_wb) = MAX_SHEETS"
  then have "length (sheetnames source_wb) \<le> MAX_SHEETS" by simp
  from split_loaded_error[OF assms this, of original_filename]
  show "\<forall>n m. snd (fst (split_excel_by_sheets_simple MAX_SHEETS lib file_bytes original_filename))
                     \<noteq> Some (TooManySheets n m)"
    by simp
next
  assume "length (sheetnames source_wb) > MAX_SHEETS"
  with assms show "split_excel_by_sheets_simple MAX_SHEETS lib file_bytes original_filename =
              (([], Some (TooManySheets (length (sheetnames source_wb)) MAX_SHEETS)), [])"
    by (simp add: split_excel_by_sheets_simple_def)
qed

text \<open>
  The workbook of 101 sheets, once under a ceiling of 101 and once under the default
  ceiling of 100.
\<close>

theorem sheet_count_ceiling_witness:
  "load_workbook (sample_lib crowded_wb) [] = Inr crowded_wb
   \<and> length (sheetnames crowded_wb) = 101
   \<and> snd (fst (split_excel_by_sheets_simple 101 (sample_lib crowded_wb) [] ''Report.xlsx''))
       \<noteq> Some (TooManySheets 101 101)
   \<and> length (sheetnames crowded_wb) > default_max_sheets
   \<and> split_excel_by_sheets_simple default_max_sheets (sample_lib crowded_wb) [] ''Report.xlsx''
       = (([], Some (TooManySheets 101 100)), [])"
proof -
  have load: "load_workbook (sample_lib crowded_wb) [] = Inr crowded_wb"
    by (simp add: sample_lib_def)
  have len: "length (sheetnames crowded_wb) = 101"
    by (simp add: sheetnames_def crowded_wb_def)
  from sheet_count_ceiling[OF load, of 101 "''Report.xlsx''"] len
  have at_ceiling:
    "snd (fst (split_excel_by_sheets_simple 101 (sample_lib crowded_wb) [] ''Report.xlsx''))
       \<noteq> Some (TooManySheets 101 101)"
    by simp
  from sheet_count_ceiling[OF load, of default_max_sheets "''Report.xlsx''"] len
  have above:
    "split_excel_by_sheets_simple default_max_sheets (sample_lib crowded_wb) [] ''Report.xlsx''
       = (([], Some (TooManySheets 101 100)), [])"
    by (simp add: default_max_sheets_def)
  from load len at_ceiling above show ?thesis by (simp add: default_max_sheets_def)
qed

section \<open>The style block of a cell\<close>




section \<open>Formulas\<close>

text \<open>
  Claim C9, as the code has it. For every cell of the source sheet that holds a formula
  (a string such as \<open>=A1+B1\<close>), the sheet that is saved for it holds a cell at the same
  coordinate whose value is the first 32767 characters of that string, never an
  evaluated result. For a formula of at most 32767 characters this is the identical
  string.
\<close>

theorem formula_copied_up_to_cell_limit:
  assumes "wb_getitem source_wb sheet_name = Inr source_ws"
    and "extract_sheet lib source_wb sheet_name = Inr blob"
    and "map_of (cells source_ws) (r, c) = Some source_cell"
    and "1 \<le> r" and "1 \<le> c"
    and "cvalue source_cell = VStr formula"
  shows "\<exists>target_ws target_cell.
           build_sheet lib source_ws sheet_name = Inr target_ws
           \<and> save lib \<lparr>sheets = [target_ws]\<rparr> = Inr blob
           \<and> map_of (cells target_ws) (r, c) = Some target_cell
           \<and> cvalue target_cell = VStr (take 32767 formula)
           \<and> (length formula \<le> 32767 \<longrightarrow> cvalue target_cell = VStr formula)"
proof -
  from assms(1,2) obtain target_ws where
    built: "build_sheet lib source_ws sheet_name = Inr target_ws"
    and saved: "save lib \<lparr>sheets = [target_ws]\<rparr> = Inr blob"
    by (auto simp: extract_sheet_def split: sum.splits)
  have src: "ws_cell source_ws (r, c) = source_cell" by (simp add: ws_cell_def assms(3))
  from build_sheet_Inr(3)[OF built stored_cell_visited[OF assms(3,4,5)]] obtain t0 where
    t0: "bind_value lib blank_cell (cvalue source_cell) = Inr t0"
    and st: "map_of (cells target_ws) (r, c)
               = Some (if has_style source_cell then copy_style lib source_cell t0 else t0)"
    by (auto simp: src)
  let ?tc = "if has_style source_cell then copy_style lib source_cell t0 else t0"
  have "cvalue ?tc = cvalue t0" by (simp add: copy_style_cvalue)
  with bind_value_Inr(1)[OF t0] assms(6) have v: "cvalue ?tc = VStr (take 32767 formula)"
    by (simp add: stored_value_def cut_string_take)
  then have "length formula \<le> 32767 \<longrightarrow> cvalue ?tc = VStr formula" by simp
  with built saved st v show ?thesis by blast
qed

text \<open>The formula in C1 of the sample sheet.\<close>

theorem formula_copied_witness:
  "wb_getitem report_wb ''Summary'' = Inr summary_sheet
   \<and> extract_sheet (sample_lib report_wb) report_wb ''Summary'' = Inr [83, 117, 109, 109, 97, 114, 121]
   \<and> map_of (cells summary_sheet) (1, 3) = Some formula_cell
   \<and> cvalue formula_cell = VStr ''=A1+B1''
   \<and> length ''=A1+B1'' \<le> 32767
   \<and> (\<exists>target_ws target_cell.
           build_sheet (sample_lib report_wb) summary_sheet ''Summary'' = Inr target_ws
           \<and> save (sample_lib report_wb) \<lparr>sheets = [target_ws]\<rparr> = Inr [83, 117, 109, 109, 97, 114, 121]
           \<and> map_of (cells target_ws) (1, 3) = Some target_cell
           \<and> cvalue target_cell = VStr ''=A1+B1'')"
proof -
  have h1: "wb_getitem report_wb ''Summary'' = Inr summary_sheet" by code_simp
  have h2: "extract_sheet (sample_lib report_wb) report_wb ''Summary''
              = Inr [83, 117, 109, 109, 97, 114, 121]" by code_simp
  have h3: "map_of (cells summary_sheet) (1, 3) = Some formula_cell" by code_simp
  have h4: "cvalue formula_cell = VStr ''=A1+B1''" by code_simp
  have h5: "length ''=A1+B1'' \<le> 32767" by simp
  from formula_copied_up_to_cell_limit[OF h1 h2 h3 _ _ h4] h5
  have "\<exists>target_ws target_cell.
           build_sheet (sample_lib report_wb) summary_sheet ''Summary'' = Inr target_ws
           \<and> save (sample_lib report_wb) \<lparr>sheets = [target_ws]\<rparr> = Inr [83, 117, 109, 109, 97, 114, 121]
           \<and> map_of (cells target_ws) (1, 3) = Some target_cell
           \<and> cvalue target_cell = VStr ''=A1+B1''"
    by auto
  with h1 h2 h3 h4 h5 show ?thesis by (intro conjI)
qed

text \<open>
  The claim as the specification words it fails for a formula of 32768 characters: the
  sheet is extracted, and its cell holds the formula without its last character.
\<close>

theorem formula_longer_than_a_cell_is_cut:
  "map_of (cells long_sheet) (1, 1) = Some (blank_cell\<lparr>cvalue := VStr long_formula\<rparr>)
   \<and> length long_formula = 32768
   \<and> extract_sheet (sample_lib long_wb) long_wb ''Long'' = Inr [76, 111, 110, 103]
   \<and> (case build_sheet (sample_lib long_wb) long_sheet ''Long'' of
         Inl e \<Rightarrow> None
       | Inr target_ws \<Rightarrow> map_option cvalue (map_of (cells target_ws) (1, 1)))
       = Some (VStr (CHR ''='' # replicate 32766 (CHR ''1'')))
   \<and> VStr (CHR ''='' # replicate 32766 (CHR ''1'')) \<noteq> VStr long_formula"
proof -
  have a: "map_of (cells long_sheet) (1, 1) = Some (blank_cell\<lparr>cvalue := VStr long_formula\<rparr>)"
    by (simp add: long_sheet_def plain_sheet_def)
  have b: "length long_formula = 32768" by (simp add: long_formula_def)
  have get: "wb_getitem long_wb ''Long'' = Inr long_sheet"
    by (simp add: wb_getitem_def long_wb_def long_sheet_def plain_sheet_def)
  have c: "extract_sheet (sample_lib long_wb) long_wb ''Long'' = Inr [76, 111, 110, 103]"
    by (simp add: extract_sheet_def get long_sheet_built sample_lib_def sample_save_def
        create_sheet_def)
  have d: "(case build_sheet (sample_lib long_wb) long_sheet ''Long'' of
         Inl e \<Rightarrow> None
       | Inr target_ws \<Rightarrow> map_option cvalue (map_of (cells target_ws) (1, 1)))
       = Some (VStr (CHR ''='' # replicate 32766 (CHR ''1'')))"
    by (simp add: long_sheet_built blank_cell_def)
  have e: "VStr (CHR ''='' # replicate 32766 (CHR ''1'')) \<noteq> VStr long_formula"
    by (simp add: long_formula_def)
  from a b c d e show ?thesis by (intro conjI)
qed

section \<open>A workbook with one visible sheet\<close>




section \<open>A sheet whose extraction fails\<close>

text \<open>
  Claim C6, as the code has it. When the extraction of a visible sheet raises, the
  exception is caught at that sheet: the call still ends with the files or with the
  no-sheets error, never with a processing error, and the sheet's error is logged. Every
  entry of the result comes from a visible sheet that was extracted, so none from the
  failed one. Every later visible sheet is still started, and the blob of a later sheet
  that is extracted is in the result under its output name, provided no extracted sheet
  after it has the same sanitized name.
\<close>

theorem failed_sheet_is_skipped:
  assumes load: "load_workbook lib file_bytes = Inr source_wb"
    and len: "length (sheetnames source_wb) \<le> MAX_SHEETS"
    and vis: "visible_sheets source_wb = before @ failing # after"
    and fail: "extract_sheet lib source_wb failing = Inl e"
  shows
    "(let result = split_excel_by_sheets_simple MAX_SHEETS lib file_bytes original_filename;
          files = fst (fst result); base_name = fst (splitext original_filename)
      in (snd (fst result) = None \<or> snd (fst result) = Some NoSheetsProcessed)
       \<and> Error_sheet failing e \<in> set (snd result)
       \<and> (\<forall>kb \<in> set files. \<exists>n \<in> set (visible_sheets source_wb).
              extract_sheet lib source_wb n = Inr (snd kb) \<and> fst kb = output_filename base_name n)
       \<and> (\<forall>t \<in> set after. Info_processing t \<in> set (snd result))
       \<and> (\<forall>ys1 t ys2 b.
              after = ys1 @ t # ys2 \<and> extract_sheet lib source_wb t = Inr b
              \<and> (\<forall>u \<in> set ys2. extracted lib source_wb u
                     \<longrightarrow> sanitize_filename u \<noteq> sanitize_filename t)
              \<longrightarrow> map_of files (output_filename base_name t) = Some b))"
proof -
  let ?R = "split_excel_by_sheets_simple MAX_SHEETS lib file_bytes original_filename"
  let ?base = "fst (splitext original_filename)"
  note files = split_loaded_files[OF load len, of original_filename]
  note log = split_loaded_log[OF load len, of original_filename]
  have a: "snd (fst ?R) = None \<or> snd (fst ?R) = Some NoSheetsProcessed"
    by (simp add: split_loaded_error[OF load len])
  have b: "Error_sheet failing e \<in> set (snd ?R)"
    by (simp add: log vis fail)
  have c: "\<forall>kb \<in> set (fst (fst ?R)). \<exists>n \<in> set (visible_sheets source_wb).
              extract_sheet lib source_wb n = Inr (snd kb) \<and> fst kb = output_filename ?base n"
  proof
    fix kb assume "kb \<in> set (fst (fst ?R))"
    then have "(fst kb, snd kb) \<in> set (fold (store_sheet lib source_wb ?base)
                 (visible_sheets source_wb) [])"
      by (simp add: files)
    from stored_origin[OF this]
    show "\<exists>n \<in> set (visible_sheets source_wb).
              extract_sheet lib source_wb n = Inr (snd kb) \<and> fst kb = output_filename ?base n"
      by simp
  qed
  have d: "\<forall>t \<in> set after. Info_processing t \<in> set (snd ?R)"
  proof
    fix t assume "t \<in> set after"
    then have "t \<in> set (visible_sheets source_wb)" by (simp add: vis)
    from processing_logged[OF this, of lib source_wb] show "Info_processing t \<in> set (snd ?R)"
      by (simp add: log)
  qed
  have e: "\<forall>ys1 t ys2 b.
              after = ys1 @ t # ys2 \<and> extract_sheet lib source_wb t = Inr b
              \<and> (\<forall>u \<in> set ys2. extracted lib source_wb u
                     \<longrightarrow> sanitize_filename u \<noteq> sanitize_filename t)
              \<longrightarrow> map_of (fst (fst ?R)) (output_filename ?base t) = Some b"
  proof (intro allI impI, elim conjE)
    fix ys1 t ys2 b
    assume dec: "after = ys1 @ t # ys2" and ok: "extract_sheet lib source_wb t = Inr b"
      and last: "\<forall>u \<in> set ys2. extracted lib source_wb u
                     \<longrightarrow> sanitize_filename u \<noteq> sanitize_filename t"
    have "visible_sheets source_wb = (before @ failing # ys1) @ t # ys2"
      by (simp add: vis dec)
    moreover from last have "\<forall>u \<in> set ys2. extracted lib source_wb u
        \<longrightarrow> output_filename ?base u \<noteq> output_filename ?base t"
      by (simp add: output_filename_eq_iff)
    ultimately show "map_of (fst (fst ?R)) (output_filename ?base t) = Some b"
      using stored_last[OF _ ok] by (simp only: files)
  qed
  show ?thesis unfolding Let_def by (intro conjI a b c d e)
qed

text \<open>
  Three visible sheets, the first of which cannot be saved: it is logged as failed, the
  last sheet is still started and its blob is in the result.
\<close>

theorem failed_sheet_is_skipped_witness:
  "load_workbook (save_failing_lib ''Notes'' year_wb) [] = Inr year_wb
   \<and> length (sheetnames year_wb) \<le> default_max_sheets
   \<and> visible_sheets year_wb = [] @ ''Notes'' # [''Q1'', ''Q1.'']
   \<and> extract_sheet (save_failing_lib ''Notes'' year_wb) year_wb ''Notes'' = Inl ''cannot save''
   \<and> extract_sheet (save_failing_lib ''Notes'' year_wb) year_wb ''Q1.'' = Inr [81, 49, 46]
   \<and> Error_sheet ''Notes'' ''cannot save''
        \<in> set (snd (split_excel_by_sheets_simple default_max_sheets
                       (save_failing_lib ''Notes'' year_wb) [] ''Report.xlsx''))
   \<and> Info_processing ''Q1.''
        \<in> set (snd (split_excel_by_sheets_simple default_max_sheets
                       (save_failing_lib ''Notes'' year_wb) [] ''Report.xlsx''))
   \<and> map_of (fst (fst (split_excel_by_sheets_simple default_max_sheets
                          (save_failing_lib ''Notes'' year_wb) [] ''Report.xlsx'')))
        (output_filename (fst (splitext ''Report.xlsx'')) ''Q1.'') = Some [81, 49, 46]"
proof -
  let ?L = "save_failing_lib ''Notes'' year_wb"
  have h1: "load_workbook ?L [] = Inr year_wb"
    by (simp add: save_failing_lib_def sample_lib_def)
  have h2: "length (sheetnames year_wb) \<le> default_max_sheets" by code_simp
  have h3: "visible_sheets year_wb = [] @ ''Notes'' # [''Q1'', ''Q1.'']" by code_simp
  have h4: "extract_sheet ?L year_wb ''Notes'' = Inl ''cannot save''" by code_simp
  have h5: "extract_sheet ?L year_wb ''Q1.'' = Inr [81, 49, 46]" by code_simp
  have dec: "[''Q1'', ''Q1.''] = [''Q1''] @ ''Q1.'' # []" by simp
  note inst = failed_sheet_is_skipped[OF h1 h2 h3 h4, of "''Report.xlsx''", unfolded Let_def]
  from inst have "Error_sheet ''Notes'' ''cannot save''
        \<in> set (snd (split_excel_by_sheets_simple default_max_sheets ?L [] ''Report.xlsx''))"
    by blast
  moreover from inst have "Info_processing ''Q1.''
        \<in> set (snd (split_excel_by_sheets_simple default_max_sheets ?L [] ''Report.xlsx''))"
    by simp
  moreover from inst dec h5 have "map_of (fst (fst (split_excel_by_sheets_simple
        default_max_sheets ?L [] ''Report.xlsx'')))
        (output_filename (fst (splitext ''Report.xlsx'')) ''Q1.'') = Some [81, 49, 46]"
    by (metis empty_iff list.set(1))
  ultimately show ?thesis using h1 h2 h3 h4 h5 by simp
qed

text \<open>
  The claim as the specification words it fails in the same run: the sheet \<open>Q1\<close> comes
  after the failed one and is extracted, yet its blob is not in the result, because the
  sheet \<open>Q1.\<close> is stored under the same output name after it.
\<close>

theorem later_blob_replaced_after_failure:
  "visible_sheets year_wb = [''Notes'', ''Q1'', ''Q1.'']
   \<and> extract_sheet (save_failing_lib ''Notes'' year_wb) year_wb ''Notes'' = Inl ''cannot save''
   \<and> extract_sheet (save_failing_lib ''Notes'' year_wb) year_wb ''Q1'' = Inr [81, 49]
   \<and> fst (split_excel_by_sheets_simple default_max_sheets (save_failing_lib ''Notes'' year_wb) []
             ''Report.xlsx'')
       = ([(''Report_Q1.xlsx'', [81, 49, 46])], None)
   \<and> [81, 49] \<notin> set (map snd (fst (fst (split_excel_by_sheets_simple default_max_sheets
                                          (save_failing_lib ''Notes'' year_wb) [] ''Report.xlsx''))))"
  by code_simp

section \<open>The number of entries\<close>

text \<open>
  Claim C8, as the code has it. When no extraction of a visible sheet raises, the result
  has at most as many entries as there are visible sheets, and exactly as many when the
  sanitized names of the visible sheets are pairwise distinct. Every output name is the
  output name of a visible sheet. A hidden or very hidden sheet is not among the visible
  ones and is never started.
\<close>

theorem entries_bounded_by_visible_sheets:
  assumes load: "load_workbook lib file_bytes = Inr source_wb"
    and len: "length (sheetnames source_wb) \<le> MAX_SHEETS"
    and ok: "\<forall>n \<in> set (visible_sheets source_wb). \<exists>b. extract_sheet lib source_wb n = Inr b"
  shows
    "(let result = split_excel_by_sheets_simple MAX_SHEETS lib file_bytes original_filename;
          files = fst (fst result); base_name = fst (splitext original_filename)
      in length files \<le> length (visible_sheets source_wb)
       \<and> (distinct (map sanitize_filename (visible_sheets source_wb))
            \<longrightarrow> length files = length (visible_sheets source_wb))
       \<and> (\<forall>k \<in> fst ` set files. \<exists>n \<in> set (visible_sheets source_wb).
              k = output_filename base_name n)
       \<and> (\<forall>h \<in> set (hidden_sheets source_wb).
              h \<notin> set (visible_sheets source_wb) \<and> Info_processing h \<notin> set (snd result)))"
proof -
  let ?R = "split_excel_by_sheets_simple MAX_SHEETS lib file_bytes original_filename"
  let ?base = "fst (splitext original_filename)"
  let ?vis = "visible_sheets source_wb"
  note files = split_loaded_files[OF load len, of original_filename]
  note log = split_loaded_log[OF load len, of original_filename]
  from ok have all: "{n \<in> set ?vis. extracted lib source_wb n} = set ?vis"
    by (auto simp: extracted_iff)
  have keys: "fst ` set (fst (fst ?R)) = set (map (output_filename ?base) ?vis)"
    by (simp add: files stored_keys all)
  have len_eq: "length (fst (fst ?R)) = card (set (map (output_filename ?base) ?vis))"
    using stored_length[of "[]" lib source_wb ?base ?vis] by (simp add: files all)
  have a: "length (fst (fst ?R)) \<le> length ?vis"
    using card_length[of "map (output_filename ?base) ?vis"] by (simp only: len_eq length_map)
  have b: "distinct (map sanitize_filename ?vis) \<longrightarrow> length (fst (fst ?R)) = length ?vis"
  proof
    assume "distinct (map sanitize_filename ?vis)"
    then have "distinct (map (output_filename ?base) ?vis)"
      by (simp add: distinct_map inj_on_def output_filename_eq_iff)
    from distinct_card[OF this] show "length (fst (fst ?R)) = length ?vis"
      by (simp only: len_eq length_map)
  qed
  have c: "\<forall>k \<in> fst ` set (fst (fst ?R)). \<exists>n \<in> set ?vis. k = output_filename ?base n"
    by (auto simp only: keys set_map)
  have d: "\<forall>h \<in> set (hidden_sheets source_wb).
              h \<notin> set ?vis \<and> Info_processing h \<notin> set (snd ?R)"
  proof
    fix h assume "h \<in> set (hidden_sheets source_wb)"
    with visible_hidden_disjoint[of source_wb] have nv: "h \<notin> set ?vis" by blast
    with processing_logged_only[of h lib source_wb ?vis]
    have "Info_processing h \<notin> set (snd ?R)" by (auto simp: log)
    with nv show "h \<notin> set ?vis \<and> Info_processing h \<notin> set (snd ?R)" by simp
  qed
  show ?thesis unfolding Let_def by (intro conjI a b c d)
qed

text \<open>Two visible sheets with distinct names and one hidden sheet: two entries.\<close>

theorem entries_bounded_witness:
  "load_workbook (sample_lib distinct_wb) [] = Inr distinct_wb
   \<and> length (sheetnames distinct_wb) \<le> default_max_sheets
   \<and> visible_sheets distinct_wb = [''Q1'', ''Q2'']
   \<and> hidden_sheets distinct_wb = [''Old'']
   \<and> extract_sheet (sample_lib distinct_wb) distinct_wb ''Q1'' = Inr [81, 49]
   \<and> extract_sheet (sample_lib distinct_wb) distinct_wb ''Q2'' = Inr [81, 50]
   \<and> distinct (map sanitize_filename [''Q1'', ''Q2''])
   \<and> length (fst (fst (split_excel_by_sheets_simple default_max_sheets (sample_lib distinct_wb) []
                         ''Report.xlsx''))) = 2
   \<and> Info_processing ''Old''
        \<notin> set (snd (split_excel_by_sheets_simple default_max_sheets (sample_lib distinct_wb) []
                       ''Report.xlsx''))"
proof -
  let ?L = "sample_lib distinct_wb"
  have h1: "load_workbook ?L [] = Inr distinct_wb" by (simp add: sample_lib_def)
  have h2: "length (sheetnames distinct_wb) \<le> default_max_sheets" by code_simp
  have h3: "visible_sheets distinct_wb = [''Q1'', ''Q2'']" by code_simp
  have h4: "hidden_sheets distinct_wb = [''Old'']" by code_simp
  have h5: "extract_sheet ?L distinct_wb ''Q1'' = Inr [81, 49]" by code_simp
  have h6: "extract_sheet ?L distinct_wb ''Q2'' = Inr [81, 50]" by code_simp
  have h7: "distinct (map sanitize_filename [''Q1'', ''Q2''])" by code_simp
  have ok: "\<forall>n \<in> set (visible_sheets distinct_wb). \<exists>b. extract_sheet ?L distinct_wb n = Inr b"
    using h3 h5 h6 by simp
  note inst = entries_bounded_by_visible_sheets[OF h1 h2 ok, of "''Report.xlsx''",
      unfolded Let_def h3 h4]
  from inst h7 have "length (fst (fst (split_excel_by_sheets_simple default_max_sheets ?L []
                         ''Report.xlsx''))) = 2"
    by simp
  moreover from inst have "Info_processing ''Old''
        \<notin> set (snd (split_excel_by_sheets_simple default_max_sheets ?L [] ''Report.xlsx''))"
    by simp
  ultimately show ?thesis using h1 h2 h3 h4 h5 h6 h7 by simp
qed

text \<open>
  The claim as the specification words it fails for two visible sheets whose names
  sanitize to the same text: both are extracted, and the result has one entry.
\<close>

theorem colliding_names_give_fewer_entries:
  "visible_sheets quarters_wb = [''Q1'', ''Q1.'']
   \<and> hidden_sheets quarters_wb = [''Old'']
   \<and> extract_sheet (sample_lib quarters_wb) quarters_wb ''Q1'' = Inr [81, 49]
   \<and> extract_sheet (sample_lib quarters_wb) quarters_wb ''Q1.'' = Inr [81, 49, 46]
   \<and> fst (split_excel_by_sheets_simple default_max_sheets (sample_lib quarters_wb) []
             ''Report.xlsx'')
       = ([(''Report_Q1.xlsx'', [81, 49, 46])], None)
   \<and> length (fst (fst (split_excel_by_sheets_simple default_max_sheets (sample_lib quarters_wb) []
                         ''Report.xlsx''))) \<noteq> length (visible_sheets quarters_wb)"
  by code_simp

section \<open>Sheets that share an output name\<close>

text \<open>
  Claim C10, as the code has it. Let two distinct visible sheets with the same sanitized
  name both be extracted, the second being the last extracted sheet with that sanitized
  name. Then the result holds exactly one entry under their common output name, with the
  bytes of that last extracted sheet, and the result has strictly fewer entries than
  there are extracted sheets.
\<close>

theorem colliding_names_share_one_entry:
  assumes load: "load_workbook lib file_bytes = Inr source_wb"
    and len: "length (sheetnames source_wb) \<le> MAX_SHEETS"
    and vis: "visible_sheets source_wb = xs @ last_sheet # ys"
    and other: "other \<in> set xs" "other \<noteq> last_sheet"
    and same: "sanitize_filename other = sanitize_filename last_sheet"
    and ex_other: "extract_sheet lib source_wb other = Inr b1"
    and ex_last: "extract_sheet lib source_wb last_sheet = Inr b2"
    and last: "\<forall>u \<in> set ys. extracted lib source_wb u
                 \<longrightarrow> sanitize_filename u \<noteq> sanitize_filename last_sheet"
  shows
    "(let files = fst (fst (split_excel_by_sheets_simple MAX_SHEETS lib file_bytes
                              original_filename));
          name = output_filename (fst (splitext original_filename)) last_sheet
      in length (filter (\<lambda>kv. fst kv = name) files) = 1
       \<and> map_of files name = Some b2
       \<and> length files < length (filter (extracted lib source_wb) (visible_sheets source_wb)))"
proof -
  let ?base = "fst (splitext original_filename)"
  let ?vis = "visible_sheets source_wb"
  let ?files = "fst (fst (split_excel_by_sheets_simple MAX_SHEETS lib file_bytes
                              original_filename))"
  let ?S = "{n \<in> set ?vis. extracted lib source_wb n}"
  note files = split_loaded_files[OF load len, of original_filename]
  have in_S: "other \<in> ?S" "last_sheet \<in> ?S"
    using other(1) ex_other ex_last by (simp_all add: vis extracted_iff)
  have keys: "fst ` set ?files = output_filename ?base ` ?S"
    by (simp add: files stored_keys)
  have dist: "distinct (map fst ?files)"
    using stored_distinct[of "[]" lib source_wb ?base ?vis] by (simp add: files)
  have "output_filename ?base last_sheet \<in> fst ` set ?files"
    using in_S(2) by (simp only: keys) (rule imageI)
  from one_entry[OF dist this]
  have a: "length (filter (\<lambda>kv. fst kv = output_filename ?base last_sheet) ?files) = 1" .
  from last have "\<forall>u \<in> set ys. extracted lib source_wb u
      \<longrightarrow> output_filename ?base u \<noteq> output_filename ?base last_sheet"
    by (simp add: output_filename_eq_iff)
  from stored_last[OF vis ex_last this]
  have b: "map_of ?files (output_filename ?base last_sheet) = Some b2"
    by (simp only: files)
  have "length ?files = card (output_filename ?base ` ?S)"
    using stored_length[of "[]" lib source_wb ?base ?vis] by (simp add: files)
  also have "\<dots> < card ?S"
    using card_image_less[of ?S other last_sheet "output_filename ?base"] in_S other(2) same
    by (simp add: output_filename_eq_iff)
  also have "?S = set (filter (extracted lib source_wb) ?vis)" by auto
  also have "card \<dots> \<le> length (filter (extracted lib source_wb) ?vis)" by (rule card_length)
  finally have c: "length ?files < length (filter (extracted lib source_wb) ?vis)" .
  show ?thesis unfolding Let_def by (intro conjI a b c)
qed

text \<open>The sheets \<open>Q1\<close> and \<open>Q1.\<close>: one entry, with the bytes of \<open>Q1.\<close>.\<close>

theorem colliding_names_witness:
  "load_workbook (sample_lib quarters_wb) [] = Inr quarters_wb
   \<and> length (sheetnames quarters_wb) \<le> default_max_sheets
   \<and> visible_sheets quarters_wb = [''Q1''] @ ''Q1.'' # []
   \<and> sanitize_filename ''Q1'' = sanitize_filename ''Q1.''
   \<and> extract_sheet (sample_lib quarters_wb) quarters_wb ''Q1'' = Inr [81, 49]
   \<and> extract_sheet (sample_lib quarters_wb) quarters_wb ''Q1.'' = Inr [81, 49, 46]
   \<and> length (filter (\<lambda>kv. fst kv = ''Report_Q1.xlsx'')
        (fst (fst (split_excel_by_sheets_simple default_max_sheets (sample_lib quarters_wb) []
                     ''Report.xlsx'')))) = 1
   \<and> map_of (fst (fst (split_excel_by_sheets_simple default_max_sheets (sample_lib quarters_wb) []
                          ''Report.xlsx''))) ''Report_Q1.xlsx'' = Some [81, 49, 46]
   \<and> length (fst (fst (split_excel_by_sheets_simple default_max_sheets (sample_lib quarters_wb) []
                         ''Report.xlsx'')))
       < length (filter (extracted (sample_lib quarters_wb) quarters_wb)
                   (visible_sheets quarters_wb))"
proof -
  let ?L = "sample_lib quarters_wb"
  have h1: "load_workbook ?L [] = Inr quarters_wb" by (simp add: sample_lib_def)
  have h2: "length (sheetnames quarters_wb) \<le> default_max_sheets" by code_simp
  have h3: "visible_sheets quarters_wb = [''Q1''] @ ''Q1.'' # []" by code_simp
  have h4: "''Q1'' \<in> set [''Q1'']" "''Q1'' \<noteq> ''Q1.''" by simp_all
  have h5: "sanitize_filename ''Q1'' = sanitize_filename ''Q1.''" by code_simp
  have h6: "extract_sheet ?L quarters_wb ''Q1'' = Inr [81, 49]" by code_simp
  have h7: "extract_sheet ?L quarters_wb ''Q1.'' = Inr [81, 49, 46]" by code_simp
  have h8: "\<forall>u \<in> set []. extracted ?L quarters_wb u
               \<longrightarrow> sanitize_filename u \<noteq> sanitize_filename ''Q1.''" by simp
  have name: "output_filename (fst (splitext ''Report.xlsx'')) ''Q1.'' = ''Report_Q1.xlsx''"
    by code_simp
  note inst = colliding_names_share_one_entry[OF h1 h2 h3 h4 h5 h6 h7 h8, of "''Report.xlsx''",
      unfolded Let_def name]
  from inst h1 h2 h3 h5 h6 h7 show ?thesis by simp
qed

text \<open>
  The claim as it is worded fails when the sheet processed last cannot be saved: the log
  shows \<open>Q1.\<close> processed after \<open>Q1\<close>, and the entry holds the bytes of \<open>Q1\<close>.
\<close>

theorem last_colliding_sheet_may_fail:
  "sanitize_filename ''Q1'' = sanitize_filename ''Q1.''
   \<and> visible_sheets quarters_wb = [''Q1'', ''Q1.'']
   \<and> extract_sheet (save_failing_lib ''Q1.'' quarters_wb) quarters_wb ''Q1'' = Inr [81, 49]
   \<and> extract_sheet (save_failing_lib ''Q1.'' quarters_wb) quarters_wb ''Q1.'' = Inl ''cannot save''
   \<and> split_excel_by_sheets_simple default_max_sheets (save_failing_lib ''Q1.'' quarters_wb) []
        ''Report.xlsx''
       = (([(''Report_Q1.xlsx'', [81, 49])], None),
          [Info_visible 2 ''Report.xlsx'', Info_hidden 1 [''Old''],
           Info_processing ''Q1'', Info_processed ''Q1'',
           Info_processing ''Q1.'', Error_sheet ''Q1.'' ''cannot save''])"
  by code_simp

section \<open>The output names\<close>

text \<open>
  Claim C2, as the code has it. The names in the result are exactly the names made for
  the extracted visible sheets: the base name that \<open>os.path.splitext\<close> leaves of the
  uploaded file name, taken as it is, an underscore, the sanitized sheet name, and
  \<open>.xlsx\<close>. Only the sheet name is sanitized.
\<close>

theorem output_names:
  assumes "load_workbook lib file_bytes = Inr source_wb"
    and "length (sheetnames source_wb) \<le> MAX_SHEETS"
  shows "fst ` set (fst (fst (split_excel_by_sheets_simple MAX_SHEETS lib file_bytes original_filename)))
       = (\<lambda>sheet_name. fst (splitext original_filename) @ ''_'' @ sanitize_filename sheet_name
                          @ ''.xlsx'')
         ` {n \<in> set (visible_sheets source_wb). extracted lib source_wb n}"
proof -
  have "output_filename (fst (splitext original_filename)) =
        (\<lambda>sheet_name. fst (splitext original_filename) @ ''_'' @ sanitize_filename sheet_name
                          @ ''.xlsx'')"
    by (rule ext) (simp add: output_filename_def)
  then show ?thesis
    using stored_keys[of lib source_wb "fst (splitext original_filename)" "visible_sheets source_wb" "[]"]
    by (simp add: split_loaded_files[OF assms])
qed

text \<open>The upload \<open>Report.xlsx\<close> with the visible sheet \<open>Summary\<close>.\<close>

theorem output_names_witness:
  "load_workbook (sample_lib report_wb) [] = Inr report_wb
   \<and> length (sheetnames report_wb) \<le> default_max_sheets
   \<and> {n \<in> set (visible_sheets report_wb). extracted (sample_lib report_wb) report_wb n}
       = {''Summary''}
   \<and> fst ` set (fst (fst (split_excel_by_sheets_simple default_max_sheets (sample_lib report_wb) []
                             ''Report.xlsx'')))
       = {''Report_Summary.xlsx''}"
proof -
  let ?L = "sample_lib report_wb"
  have h1: "load_workbook ?L [] = Inr report_wb" by (simp add: sample_lib_def)
  have h2: "length (sheetnames report_wb) \<le> default_max_sheets" by code_simp
  have h3: "visible_sheets report_wb = [''Summary'']" by code_simp
  have h4: "extracted ?L report_wb ''Summary''" by code_simp
  have h5: "{n \<in> set (visible_sheets report_wb). extracted ?L report_wb n} = {''Summary''}"
    using h3 h4 by auto
  have base: "fst (splitext ''Report.xlsx'') = ''Report''" by code_simp
  have san: "sanitize_filename ''Summary'' = ''Summary''" by code_simp
  from output_names[OF h1 h2, of "''Report.xlsx''"] h1 h2 h5 base san
  show ?thesis by simp
qed

text \<open>
  The claim as the specification words it fails for an upload whose name holds a colon:
  the colon stays in the output name, where sanitizing the base name would have replaced
  it by an underscore.
\<close>

theorem base_name_is_not_sanitized:
  "fst (split_excel_by_sheets_simple default_max_sheets (sample_lib report_wb) []
          ''Report 12:30.xlsx'')
     = ([(''Report 12:30_Summary.xlsx'', [83, 117, 109, 109, 97, 114, 121])], None)
   \<and> sanitize_filename (fst (splitext ''Report 12:30.xlsx'')) = ''Report 12_30''
   \<and> sanitize_filename (fst (splitext ''Report 12:30.xlsx'')) @ ''_''
       @ sanitize_filename ''Summary'' @ ''.xlsx'' = ''Report 12_30_Summary.xlsx''"
  by code_simp

section \<open>A batch without files\<close>

text \<open>
  Whenever no visible sheet is extracted, be it that there is none or that every one
  fails, the function returns the empty dictionary with the one error
  \<open>No sheets could be processed successfully\<close>. It never returns an empty dictionary
  without an error, so the caller's answer \<open>No sheets found in Excel file\<close> is never
  given.
\<close>

lemma empty_batch_outcome:
  assumes "load_workbook lib file_bytes = Inr source_wb"
    and "length (sheetnames source_wb) \<le> MAX_SHEETS"
    and "\<forall>n \<in> set (visible_sheets source_wb). \<exists>e. extract_sheet lib source_wb n = Inl e"
  shows "fst (split_excel_by_sheets_simple MAX_SHEETS lib file_bytes original_filename)
           = ([], Some NoSheetsProcessed)"
proof -
  let ?base = "fst (splitext original_filename)"
  from assms(3) have "\<forall>n \<in> set (visible_sheets source_wb). \<not> extracted lib source_wb n"
    by (auto simp: extracted_def)
  then have "fst ` set (fold (store_sheet lib source_wb ?base) (visible_sheets source_wb) []) = {}"
    by (simp add: stored_keys)
  then have "fold (store_sheet lib source_wb ?base) (visible_sheets source_wb) [] = []"
    by simp
  then show ?thesis
    using split_loaded[OF assms(1,2), of original_filename] by simp
qed

lemma no_files_never_without_error:
  "fst (split_excel_by_sheets_simple MAX_SHEETS lib file_bytes original_filename) \<noteq> ([], None)"
  by (auto simp: split_excel_by_sheets_simple_def Let_def split: sum.splits prod.splits)

lemma no_sheets_found_is_never_answered:
  "split_excel_reply (fst (split_excel_by_sheets_simple MAX_SHEETS lib file_bytes original_filename))
     \<noteq> Reply_error 400 ''No sheets found in Excel file''"
proof -
  let ?r = "fst (split_excel_by_sheets_simple MAX_SHEETS lib file_bytes original_filename)"
  show ?thesis
  proof (cases "snd ?r")
    case None
    with no_files_never_without_error[of MAX_SHEETS lib file_bytes original_filename]
    have "fst ?r \<noteq> []" by (cases ?r) auto
    with None show ?thesis by (simp add: split_excel_reply_def)
  next
    case (Some e)
    then show ?thesis by (simp add: split_excel_reply_def)
  qed
qed

text \<open>
  Claim C3. A workbook without a visible sheet is to end in an outcome of its own,
  distinct from the outcome of a workbook whose visible sheets all fail. The code returns
  the same pair for the workbook with hidden sheets only and for the sample workbook
  whose one visible sheet cannot be saved, and the caller answers the first with status
  500 and the message of the second.
\<close>

theorem empty_batches_are_not_told_apart:
  "filter (\<lambda>s. sheet_state s = Visible) (sheets hidden_wb) = []
   \<and> fst (split_excel_by_sheets_simple default_max_sheets (sample_lib hidden_wb) [] ''Report.xlsx'')
       = ([], Some NoSheetsProcessed)
   \<and> split_excel_reply
        (fst (split_excel_by_sheets_simple default_max_sheets (sample_lib hidden_wb) []
                ''Report.xlsx''))
       = Reply_error 500 ''No sheets could be processed successfully''
   \<and> filter (\<lambda>s. sheet_state s = Visible) (sheets report_wb) = [summary_sheet]
   \<and> extract_sheet (save_failing_lib ''Summary'' report_wb) report_wb ''Summary''
       = Inl ''cannot save''
   \<and> fst (split_excel_by_sheets_simple default_max_sheets
             (save_failing_lib ''Summary'' report_wb) [] ''Report.xlsx'')
       = ([], Some NoSheetsProcessed)"
  by code_simp

end
